theory Spec2Isabelle
  imports
    Main
    "HOL-Library.Word"
    "HOL-Library.Signed_Division"
    "HOL-Library.Multiset"
    "HOL-Library.DAList"
begin

section \<open>Data model of the connection manager\<close>

text \<open>
  The Go package keeps one gRPC client connection per watched service in
  \<^verbatim>\<open>ConnManager.conns\<close>, a \<^verbatim>\<open>map[string]*managedConn\<close>. A connection is a
  pointer \<^verbatim>\<open>*grpc.ClientConn\<close>; the model writes a non-nil pointer as its address
  (a natural number) and the nil pointer as \<open>None\<close>.
\<close>

type_synonym handle = nat

text \<open>
  Go panics are results of the model: calling \<^verbatim>\<open>Close\<close> through a nil
  \<^verbatim>\<open>*grpc.ClientConn\<close> dereferences nil, and \<^verbatim>\<open>rand.Int63n\<close> and \<^verbatim>\<open>rand.Intn\<close>
  panic on a non-positive bound.
\<close>

datatype panic = NilPointerDereference | InvalidArgument string

text \<open>Go error values: \<^verbatim>\<open>errors.New(msg)\<close> and \<^verbatim>\<open>fmt.Errorf("%w: %s", e, s)\<close>.\<close>

datatype error = ErrorsNew string | ErrorfWrap error string

fun Error :: "error \<Rightarrow> string" where
  "Error (ErrorsNew msg) = msg"
| "Error (ErrorfWrap e s) = Error e @ '': '' @ s"

fun errors_Is :: "error \<Rightarrow> error \<Rightarrow> bool" where
  "errors_Is (ErrorsNew msg) t = (ErrorsNew msg = t)"
| "errors_Is (ErrorfWrap e s) t = (ErrorfWrap e s = t \<or> errors_Is e t)"

definition ErrConnNotFound :: error where
  "ErrConnNotFound = ErrorsNew ''grpc_connection_not_found''"

text \<open>\<^verbatim>\<open>managedConn\<close> couples a connection with its target address.\<close>

record managedConn =
  target :: string
  conn :: "handle option"

datatype logger = NopLogger | ZapLogger nat

datatype dial_option = InsecureTransportCredentials | DialOption nat

text \<open>
  \<^verbatim>\<open>ConnManager\<close>. The map \<^verbatim>\<open>conns\<close> is an association list with distinct keys:
  the order of the list stands for the order in which a \<^verbatim>\<open>range\<close> loop happens to
  visit the map, which Go leaves unspecified. \<^verbatim>\<open>time.Duration\<close> is an \<^verbatim>\<open>int64\<close>
  counting nanoseconds. The mutex \<^verbatim>\<open>mu\<close> is not modelled: every method below
  holds it for its whole body, so the methods are atomic steps on the state.
\<close>

record ConnManager =
  client :: nat
  watchList :: "string list"
  conns :: "(string, managedConn) alist"
  logger :: logger
  dialOpts :: "dial_option list"
  refreshInterval :: "64 word"

text \<open>
  The connections themselves live outside the manager. What the methods do to
  them is call \<^verbatim>\<open>Close\<close>; the model records every such call in a multiset, so
  that \<open>count log h\<close> is the number of times \<^verbatim>\<open>Close\<close> ran on the connection \<open>h\<close>.
  The error \<^verbatim>\<open>Close\<close> returns is dropped by \<^verbatim>\<open>replaceConn\<close> and only logged by
  \<^verbatim>\<open>CloseAll\<close>; it never changes the control flow and is left out, as is the log
  output.
\<close>

type_synonym close_log = "handle multiset"

definition Close :: "handle option \<Rightarrow> close_log \<Rightarrow> panic + close_log" where
  "Close c log =
     (case c of
        None \<Rightarrow> Inl NilPointerDereference
      | Some h \<Rightarrow> Inr (add_mset h log))"

section \<open>The pool operations\<close>

definition replaceConn ::
  "string \<Rightarrow> handle option \<Rightarrow> string \<Rightarrow> ConnManager \<Rightarrow> close_log
     \<Rightarrow> panic + (ConnManager \<times> close_log)" where
  "replaceConn service c tgt cm log =
     (if (case DAList.lookup (conns cm) service of
            Some existing \<Rightarrow> target existing = tgt
          | None \<Rightarrow> False)
      then
        (if c \<noteq> None
         then (case Close c log of
                 Inl p \<Rightarrow> Inl p
               | Inr log' \<Rightarrow> Inr (cm, log'))
         else Inr (cm, log))
      else
        (case (case DAList.lookup (conns cm) service of
                 Some old \<Rightarrow> Close (conn old) log
               | None \<Rightarrow> Inr log) of
           Inl p \<Rightarrow> Inl p
         | Inr log' \<Rightarrow>
             (if c \<noteq> None
              then Inr (cm\<lparr>conns :=
                          DAList.update service \<lparr>target = tgt, conn = c\<rparr> (conns cm)\<rparr>,
                        log')
              else Inr (cm\<lparr>conns := DAList.delete service (conns cm)\<rparr>, log'))))"

text \<open>
  \<^verbatim>\<open>CloseAll\<close> ranges over the map and closes each connection, then installs a
  fresh empty map. \<open>closeEach\<close> is the \<^verbatim>\<open>range\<close> loop.
\<close>

fun closeEach :: "(string \<times> managedConn) list \<Rightarrow> close_log \<Rightarrow> panic + close_log" where
  "closeEach [] log = Inr log"
| "closeEach ((name, mc) # rest) log =
     (case Close (conn mc) log of
        Inl p \<Rightarrow> Inl p
      | Inr log' \<Rightarrow> closeEach rest log')"

definition CloseAll :: "ConnManager \<Rightarrow> close_log \<Rightarrow> panic + (ConnManager \<times> close_log)" where
  "CloseAll cm log =
     (case closeEach (DAList.impl_of (conns cm)) log of
        Inl p \<Rightarrow> Inl p
      | Inr log' \<Rightarrow> Inr (cm\<lparr>conns := DAList.empty\<rparr>, log'))"


text \<open>
  \<^verbatim>\<open>Start\<close> only spawns goroutines: one \<^verbatim>\<open>watchService\<close> per watched service and
  one that calls \<^verbatim>\<open>CloseAll\<close> once the context is done. Their interleaving is
  not modelled; each of them is modelled on its own.
\<close>

text \<open>
  \<^verbatim>\<open>GetConn\<close> returns the pair \<^verbatim>\<open>(mc.conn, nil)\<close> as \<open>Inr\<close> and \<^verbatim>\<open>(nil, err)\<close> as
  \<open>Inl\<close>, together with the manager it leaves behind.
\<close>

definition GetConn :: "string \<Rightarrow> ConnManager \<Rightarrow> (error + handle option) \<times> ConnManager" where
  "GetConn service cm =
     (case DAList.lookup (conns cm) service of
        None \<Rightarrow> (Inl (ErrorfWrap ErrConnNotFound service), cm)
      | Some mc \<Rightarrow> (Inr (conn mc), cm))"

section \<open>Construction\<close>

text \<open>
  An \<^verbatim>\<open>Option\<close> is a function that configures the manager or fails. A
  \<^verbatim>\<open>*zap.Logger\<close> argument may be nil, hence \<open>logger option\<close>.
\<close>

type_synonym Option = "ConnManager \<Rightarrow> error + ConnManager"

definition WithLogger :: "logger option \<Rightarrow> Option" where
  "WithLogger l cm =
     (case l of
        None \<Rightarrow> Inl (ErrorsNew ''nil logger'')
      | Some lg \<Rightarrow> Inr (cm\<lparr>logger := lg\<rparr>))"

definition WithRefreshInterval :: "64 word \<Rightarrow> Option" where
  "WithRefreshInterval d cm =
     (if d \<le>s 0 then Inl (ErrorsNew ''interval_must_be_positive'')
      else Inr (cm\<lparr>refreshInterval := d\<rparr>))"

definition WithDialOptions :: "dial_option list \<Rightarrow> Option" where
  "WithDialOptions opts cm = Inr (cm\<lparr>dialOpts := dialOpts cm @ opts\<rparr>)"

definition Second :: "64 word" where
  "Second = 1000000000"

fun applyOpts :: "Option list \<Rightarrow> ConnManager \<Rightarrow> error + ConnManager" where
  "applyOpts [] cm = Inr cm"
| "applyOpts (opt # opts) cm =
     (case opt cm of
        Inl err \<Rightarrow> Inl err
      | Inr cm' \<Rightarrow> applyOpts opts cm')"

definition New :: "nat option \<Rightarrow> string list \<Rightarrow> Option list \<Rightarrow> error + ConnManager" where
  "New cl services opts =
     (case cl of
        None \<Rightarrow> Inl (ErrorsNew ''nil_consul_client'')
      | Some c \<Rightarrow>
          if length services = 0 then Inl (ErrorsNew ''empty_service_list'')
          else applyOpts opts
                 \<lparr>client = c,
                  watchList = services,
                  conns = DAList.empty,
                  logger = NopLogger,
                  dialOpts = [InsecureTransportCredentials],
                  refreshInterval = 30 * Second\<rparr>)"

text \<open>
  The options a caller can build with the package's three constructors, as data,
  and the \<^verbatim>\<open>Option\<close> each one stands for.
\<close>

datatype option_call =
    CallWithLogger "logger option"
  | CallWithRefreshInterval "64 word"
  | CallWithDialOptions "dial_option list"

fun option_of :: "option_call \<Rightarrow> Option" where
  "option_of (CallWithLogger l) = WithLogger l"
| "option_of (CallWithRefreshInterval d) = WithRefreshInterval d"
| "option_of (CallWithDialOptions opts) = WithDialOptions opts"

fun config_error :: "option_call \<Rightarrow> bool" where
  "config_error (CallWithLogger l) = (l = None)"
| "config_error (CallWithRefreshInterval d) = (d \<le>s 0)"
| "config_error (CallWithDialOptions opts) = False"

section \<open>Backoff\<close>

text \<open>
  \<^verbatim>\<open>rand.Int63n(n)\<close> and \<^verbatim>\<open>rand.Intn(n)\<close> belong to Go's standard library; they
  are modelled from its documentation: a non-negative pseudo-random number in
  \<open>[0, n)\<close>, and a panic if \<open>n \<le> 0\<close>. The first argument is the raw
  non-negative number the generator produced, which the function reduces
  modulo \<open>n\<close>; every value of \<open>[0, n)\<close> arises so.
\<close>

definition Int63n :: "64 word \<Rightarrow> 64 word \<Rightarrow> panic + 64 word" where
  "Int63n raw n =
     (if n \<le>s 0 then Inl (InvalidArgument ''invalid argument to Int63n'')
      else Inr (raw mod n))"

definition Intn :: "nat \<Rightarrow> int \<Rightarrow> panic + int" where
  "Intn raw n =
     (if n \<le> 0 then Inl (InvalidArgument ''invalid argument to Intn'')
      else Inr (int raw mod n))"

text \<open>
  \<^verbatim>\<open>base / 2\<close> is Go's division on \<^verbatim>\<open>int64\<close>, which truncates towards zero, and
  \<^verbatim>\<open>base + ...\<close> wraps around.
\<close>

definition backoff :: "64 word \<Rightarrow> 64 word \<Rightarrow> panic + 64 word" where
  "backoff raw base =
     (let delta = (word_of_int (sint base sdiv 2) :: 64 word)
      in case Int63n raw delta of
           Inl p \<Rightarrow> Inl p
         | Inr r \<Rightarrow> Inr (base + r))"

section \<open>The discovery loop\<close>

text \<open>
  What \<^verbatim>\<open>watchService\<close> reads of a directory entry: \<^verbatim>\<open>Node.Address\<close>,
  \<^verbatim>\<open>Service.Address\<close> and \<^verbatim>\<open>Service.Port\<close>. The pointers \<^verbatim>\<open>Node\<close> and
  \<^verbatim>\<open>Service\<close> of an entry, and the \<^verbatim>\<open>QueryMeta\<close> of a successful query, are
  taken to be non-nil, as the Consul client returns them.
\<close>

record ServiceEntry =
  Node_Address :: string
  Service_Address :: string
  Service_Port :: int

record QueryMeta =
  LastIndex :: "64 word"

record QueryOptions =
  WaitTime :: "64 word"
  WaitIndex :: "64 word"
  AllowStale :: bool

text \<open>\<^verbatim>\<open>fmt.Sprintf("%s:%d", addr, port)\<close>.\<close>

fun digits :: "nat \<Rightarrow> string" where
  "digits n =
     (if n < 10 then [char_of (48 + n)]
      else digits (n div 10) @ [char_of (48 + n mod 10)])"

declare digits.simps [simp del]

definition itoa :: "int \<Rightarrow> string" where
  "itoa i = (if i < 0 then CHR ''-'' # digits (nat (- i)) else digits (nat i))"

definition addrTemplate :: "string \<Rightarrow> int \<Rightarrow> string" where
  "addrTemplate addr port = addr @ '':'' @ itoa port"

text \<open>
  One iteration of the loop meets the outside world five times: the
  cancellation check, the blocking query, a random draw (for the backoff or for
  the choice of an instance), the host lookup and the dial. \<open>iteration_env\<close> is
  what the world answers in one iteration.
\<close>

record iteration_env =
  ctx_done :: bool
  Health_Service :: "string \<Rightarrow> QueryOptions \<Rightarrow> error + (ServiceEntry list \<times> QueryMeta)"
  rand_Int63 :: "64 word"
  rand_Int :: nat
  LookupHost :: "string \<Rightarrow> error option"
  NewClient :: "string \<Rightarrow> dial_option list \<Rightarrow> error + handle"

text \<open>What the loop does to the world besides closing connections.\<close>

datatype event = Queried string QueryOptions | Slept "64 word"

record loop_state =
  waitIdx :: "64 word"
  mgr :: ConnManager
  closes :: close_log
  trace :: "event list"

definition submit ::
  "string \<Rightarrow> handle option \<Rightarrow> string \<Rightarrow> loop_state \<Rightarrow> panic + loop_state" where
  "submit service c tgt st =
     (case replaceConn service c tgt (mgr st) (closes st) of
        Inl p \<Rightarrow> Inl p
      | Inr (cm', log') \<Rightarrow> Inr (st\<lparr>mgr := cm', closes := log'\<rparr>))"

definition watchIteration :: "string \<Rightarrow> iteration_env \<Rightarrow> loop_state \<Rightarrow> panic + loop_state" where
  "watchIteration service env st =
     (let q = \<lparr>WaitTime = refreshInterval (mgr st), WaitIndex = waitIdx st, AllowStale = False\<rparr>;
          st1 = st\<lparr>trace := trace st @ [Queried service q]\<rparr>
      in case Health_Service env service q of
           Inl err \<Rightarrow>
             (case backoff (rand_Int63 env) (refreshInterval (mgr st1)) of
                Inl p \<Rightarrow> Inl p
              | Inr d \<Rightarrow> Inr (st1\<lparr>trace := trace st1 @ [Slept d]\<rparr>))
         | Inr (entries, meta) \<Rightarrow>
             (let st2 = st1\<lparr>waitIdx := LastIndex meta\<rparr>
              in if length entries = 0 then submit service None '''' st2
                 else
                   (case Intn (rand_Int env) (int (length entries)) of
                      Inl p \<Rightarrow> Inl p
                    | Inr i \<Rightarrow>
                        (let selected = entries ! nat i;
                             addr = (if Service_Address selected = ''''
                                     then Node_Address selected
                                     else Service_Address selected)
                         in if LookupHost env addr \<noteq> None then Inr st2
                            else
                              (let tgt = addrTemplate addr (Service_Port selected)
                               in case NewClient env tgt (dialOpts (mgr st2)) of
                                    Inl err \<Rightarrow> Inr st2
                                  | Inr c \<Rightarrow> submit service (Some c) tgt st2)))))"

text \<open>
  The loop runs until the context is cancelled. The list is what the world
  answers in the iterations observed; when it is used up the loop is still
  running, and the state reached so far is returned.
\<close>

fun watchLoop :: "string \<Rightarrow> iteration_env list \<Rightarrow> loop_state \<Rightarrow> panic + loop_state" where
  "watchLoop service [] st = Inr st"
| "watchLoop service (env # envs) st =
     (if ctx_done env then Inr st
      else case watchIteration service env st of
             Inl p \<Rightarrow> Inl p
           | Inr st' \<Rightarrow> watchLoop service envs st')"

definition watchService ::
  "string \<Rightarrow> iteration_env list \<Rightarrow> ConnManager \<Rightarrow> close_log \<Rightarrow> panic + loop_state" where
  "watchService service envs cm log =
     watchLoop service envs \<lparr>waitIdx = 0, mgr = cm, closes = log, trace = []\<rparr>"

section \<open>Notions used to state the properties\<close>

text \<open>
  The invariant of the pool: no entry holds a nil connection. The state type
  admits such entries, as Go's \<^verbatim>\<open>*grpc.ClientConn\<close> field does.
\<close>

definition pool_ok :: "ConnManager \<Rightarrow> bool" where
  "pool_ok cm = list_all (\<lambda>(name, mc). conn mc \<noteq> None) (DAList.impl_of (conns cm))"

text \<open>The connections the pool holds, one occurrence per entry that holds it.\<close>

definition handles :: "ConnManager \<Rightarrow> handle multiset" where
  "handles cm = mset (List.map_filter (\<lambda>(name, mc). conn mc) (DAList.impl_of (conns cm)))"

text \<open>Sequences of calls to the two methods that write the pool.\<close>

datatype pool_op = Replace string "handle option" string | Drain

fun apply_op :: "pool_op \<Rightarrow> ConnManager \<Rightarrow> close_log \<Rightarrow> panic + (ConnManager \<times> close_log)" where
  "apply_op (Replace service c tgt) cm log = replaceConn service c tgt cm log"
| "apply_op Drain cm log = CloseAll cm log"

fun run_ops :: "pool_op list \<Rightarrow> ConnManager \<Rightarrow> close_log \<Rightarrow> panic + (ConnManager \<times> close_log)" where
  "run_ops [] cm log = Inr (cm, log)"
| "run_ops (op # ops) cm log =
     (case apply_op op cm log of
        Inl p \<Rightarrow> Inl p
      | Inr (cm', log') \<Rightarrow> run_ops ops cm' log')"

text \<open>The queries a trace contains, in the order they were sent.\<close>

fun queries :: "event list \<Rightarrow> QueryOptions list" where
  "queries [] = []"
| "queries (Queried service q # es) = q # queries es"
| "queries (Slept d # es) = queries es"

subsection \<open>Concrete states\<close>

text \<open>
  A manager watching two services that holds the connection \<open>1\<close> to
  \<^verbatim>\<open>10.0.0.1:9000\<close> for \<^verbatim>\<open>users\<close> and nothing for \<^verbatim>\<open>billing\<close>; a directory
  that refuses the query; and one that reports a single instance.
\<close>

definition users_manager :: ConnManager where
  "users_manager =
     \<lparr>client = 1,
      watchList = [''users'', ''billing''],
      conns = DAList.update ''users'' \<lparr>target = ''10.0.0.1:9000'', conn = Some 1\<rparr> DAList.empty,
      logger = NopLogger,
      dialOpts = [InsecureTransportCredentials],
      refreshInterval = 30 * Second\<rparr>"

definition refusing_env :: iteration_env where
  "refusing_env =
     \<lparr>ctx_done = False,
      Health_Service = (\<lambda>service q. Inl (ErrorsNew ''connection refused'')),
      rand_Int63 = 7,
      rand_Int = 0,
      LookupHost = (\<lambda>host. None),
      NewClient = (\<lambda>tgt opts. Inr 2)\<rparr>"

definition answering_env :: iteration_env where
  "answering_env =
     \<lparr>ctx_done = False,
      Health_Service = (\<lambda>service q.
        Inr ([\<lparr>Node_Address = ''10.0.0.2'', Service_Address = '''', Service_Port = 9000\<rparr>],
             \<lparr>LastIndex = 42\<rparr>)),
      rand_Int63 = 7,
      rand_Int = 0,
      LookupHost = (\<lambda>host. None),
      NewClient = (\<lambda>tgt opts. Inr 2)\<rparr>"

definition users_loop :: loop_state where
  "users_loop = \<lparr>waitIdx = 5, mgr = users_manager, closes = {#}, trace = []\<rparr>"

section \<open>Replacing a connection\<close>

text \<open>
  C1. When the pool holds an entry for the service whose target equals the
  target passed together with a new connection, \<open>replaceConn\<close> closes the new
  connection (one \<open>Close\<close> call on it, none on any other), and the manager, with
  the existing entry, is returned as it was: nothing is installed.
\<close>

theorem replaceConn_same_target:
  assumes "DAList.lookup (conns cm) service = Some existing"
    and "target existing = tgt"
  shows "replaceConn service (Some new) tgt cm log = Inr (cm, add_mset new log)"
  using assms by (simp add: replaceConn_def Close_def)

theorem replaceConn_same_target_witness:
  "DAList.lookup (conns users_manager) ''users'' = Some \<lparr>target = ''10.0.0.1:9000'', conn = Some 1\<rparr>
   \<and> target \<lparr>target = ''10.0.0.1:9000'', conn = Some (1::nat)\<rparr> = ''10.0.0.1:9000''
   \<and> replaceConn ''users'' (Some 2) ''10.0.0.1:9000'' users_manager {#}
       = Inr (users_manager, {#2#})"
proof -
  have h: "DAList.lookup (conns users_manager) ''users''
      = Some \<lparr>target = ''10.0.0.1:9000'', conn = Some 1\<rparr>"
    by (simp add: users_manager_def)
  show ?thesis
    using h replaceConn_same_target [OF h, of "''10.0.0.1:9000''" 2 "{#}"] by simp
qed

text \<open>
  C2. When the pool holds an entry for the service, with a connection \<open>h\<close>, and
  the target passed with the new connection differs from the entry's,
  \<open>replaceConn\<close> calls \<open>Close\<close> on \<open>h\<close> exactly once (and on nothing else), and
  afterwards the pool maps the service to the new connection and the new target,
  so that \<open>GetConn\<close> returns the new connection.
\<close>

theorem replaceConn_new_target:
  assumes "DAList.lookup (conns cm) service = Some old"
    and "target old \<noteq> tgt"
    and "conn old = Some h"
  shows "\<exists>cm' log'. replaceConn service (Some new) tgt cm log = Inr (cm', log')
    \<and> log' = add_mset h log
    \<and> count log' h = count log h + 1
    \<and> DAList.lookup (conns cm') service = Some \<lparr>target = tgt, conn = Some new\<rparr>
    \<and> GetConn service cm' = (Inr (Some new), cm')"
  using assms by (simp add: replaceConn_def Close_def GetConn_def)

theorem replaceConn_new_target_witness:
  "DAList.lookup (conns users_manager) ''users'' = Some \<lparr>target = ''10.0.0.1:9000'', conn = Some 1\<rparr>
   \<and> target \<lparr>target = ''10.0.0.1:9000'', conn = Some (1::nat)\<rparr> \<noteq> ''10.0.0.2:9000''
   \<and> (\<exists>cm' log'. replaceConn ''users'' (Some 2) ''10.0.0.2:9000'' users_manager {#} = Inr (cm', log')
        \<and> log' = {#1#}
        \<and> DAList.lookup (conns cm') ''users'' = Some \<lparr>target = ''10.0.0.2:9000'', conn = Some 2\<rparr>)"
proof -
  have h: "DAList.lookup (conns users_manager) ''users''
      = Some \<lparr>target = ''10.0.0.1:9000'', conn = Some 1\<rparr>"
    by (simp add: users_manager_def)
  have d: "target \<lparr>target = ''10.0.0.1:9000'', conn = Some (1::nat)\<rparr> \<noteq> ''10.0.0.2:9000''"
    by simp
  have c: "conn \<lparr>target = ''10.0.0.1:9000'', conn = Some (1::nat)\<rparr> = Some 1"
    by simp
  show ?thesis
    using h d replaceConn_new_target [OF h d c, of 2 "{#}"] by auto
qed

text \<open>
  C3, as amended. A call of \<open>replaceConn\<close> with a nil connection removes the
  service's entry and closes the connection it held, provided the target string
  passed differs from the entry's target (the discovery loop passes the empty
  string, which no formatted target equals) and the entry holds a connection.
  With no entry for the service the call changes nothing. (When the targets are
  equal the first branch of \<open>replaceConn\<close> returns at once; see the
  counterexample.)
\<close>

theorem replaceConn_nil:
  assumes "case DAList.lookup (conns cm) service of
             None \<Rightarrow> True
           | Some old \<Rightarrow> target old \<noteq> tgt \<and> conn old \<noteq> None"
  shows "\<exists>log'. replaceConn service None tgt cm log
            = Inr (cm\<lparr>conns := DAList.delete service (conns cm)\<rparr>, log')
          \<and> DAList.lookup (DAList.delete service (conns cm)) service = None
          \<and> (case DAList.lookup (conns cm) service of
               None \<Rightarrow> log' = log
             | Some old \<Rightarrow> \<exists>h. conn old = Some h \<and> log' = add_mset h log)"
  using assms by (auto simp: replaceConn_def Close_def split: option.splits)

theorem replaceConn_nil_witness:
  "(case DAList.lookup (conns users_manager) ''users'' of
      None \<Rightarrow> True
    | Some old \<Rightarrow> target old \<noteq> '''' \<and> conn old \<noteq> None)
   \<and> replaceConn ''users'' None '''' users_manager {#}
       = Inr (users_manager\<lparr>conns := DAList.delete ''users'' (conns users_manager)\<rparr>, {#1#})
   \<and> DAList.lookup (DAList.delete ''users'' (conns users_manager)) ''users'' = None"
proof -
  have h: "case DAList.lookup (conns users_manager) ''users'' of
      None \<Rightarrow> True
    | Some old \<Rightarrow> target old \<noteq> '''' \<and> conn old \<noteq> None"
    by (simp add: users_manager_def)
  have l: "DAList.lookup (conns users_manager) ''users''
      = Some \<lparr>target = ''10.0.0.1:9000'', conn = Some 1\<rparr>"
    by (simp add: users_manager_def)
  show ?thesis
    using h replaceConn_nil [OF h, of "{#}"] by (auto simp: l)
qed

text \<open>
  C3 as stated fails: with the entry's own target, a nil connection neither
  closes the held connection nor removes the entry.
\<close>

theorem replaceConn_nil_same_target_counterexample:
  "replaceConn ''users'' None ''10.0.0.1:9000'' users_manager {#} = Inr (users_manager, {#})
   \<and> DAList.lookup (conns users_manager) ''users''
       = Some \<lparr>target = ''10.0.0.1:9000'', conn = Some 1\<rparr>"
  by (simp add: replaceConn_def users_manager_def)

text \<open>
  C10. \<open>replaceConn\<close> leaves the entry of every other service, and every other
  field of the manager, as it was. The call returns unless the entry it has to
  close holds a nil connection.
\<close>

theorem replaceConn_frame:
  assumes "other \<noteq> service"
  shows "case replaceConn service c tgt cm log of
           Inl p \<Rightarrow> p = NilPointerDereference
             \<and> (\<exists>old. DAList.lookup (conns cm) service = Some old
                   \<and> target old \<noteq> tgt \<and> conn old = None)
         | Inr (cm', log') \<Rightarrow>
             DAList.lookup (conns cm') other = DAList.lookup (conns cm) other
             \<and> cm' = cm\<lparr>conns := conns cm'\<rparr>"
  using assms
  by (auto simp: replaceConn_def Close_def split: option.splits sum.splits)

theorem replaceConn_frame_witness:
  "''users'' \<noteq> ''billing''
   \<and> (case replaceConn ''billing'' (Some 2) ''10.0.0.7:9100'' users_manager {#} of
         Inl p \<Rightarrow> False
       | Inr (cm', log') \<Rightarrow>
           DAList.lookup (conns cm') ''users''
             = Some \<lparr>target = ''10.0.0.1:9000'', conn = Some 1\<rparr>)"
proof -
  have h: "''users'' \<noteq> ''billing''" by simp
  have l: "DAList.lookup (conns users_manager) ''users''
      = Some \<lparr>target = ''10.0.0.1:9000'', conn = Some 1\<rparr>"
    by (simp add: users_manager_def)
  have n: "DAList.lookup (conns users_manager) ''billing'' = None"
    by (simp add: users_manager_def)
  show ?thesis
    using h replaceConn_frame [OF h, where c = "Some 2" and tgt = "''10.0.0.7:9100''"
        and cm = users_manager and log = "{#}"]
    by (auto simp: l n split: sum.splits)
qed

section \<open>Lookup\<close>

text \<open>
  C4. \<open>GetConn\<close> returns the connection held when the pool has an entry for the
  service, and an error wrapping \<open>ErrConnNotFound\<close> when it has none; either way
  the manager is left as it was. The function has no panic among its results.
\<close>

theorem GetConn_result:
  "(\<forall>mc. DAList.lookup (conns cm) service = Some mc
      \<longrightarrow> GetConn service cm = (Inr (conn mc), cm))
   \<and> (DAList.lookup (conns cm) service = None
      \<longrightarrow> GetConn service cm = (Inl (ErrorfWrap ErrConnNotFound service), cm)
        \<and> errors_Is (ErrorfWrap ErrConnNotFound service) ErrConnNotFound)
   \<and> snd (GetConn service cm) = cm"
  by (simp add: GetConn_def ErrConnNotFound_def split: option.splits)

theorem GetConn_result_witness:
  "DAList.lookup (conns users_manager) ''users'' = Some \<lparr>target = ''10.0.0.1:9000'', conn = Some 1\<rparr>
   \<and> GetConn ''users'' users_manager = (Inr (Some 1), users_manager)
   \<and> DAList.lookup (conns users_manager) ''billing'' = None
   \<and> GetConn ''billing'' users_manager
       = (Inl (ErrorfWrap ErrConnNotFound ''billing''), users_manager)
   \<and> Error (ErrorfWrap ErrConnNotFound ''billing'') = ''grpc_connection_not_found: billing''"
proof -
  have l: "DAList.lookup (conns users_manager) ''users''
      = Some \<lparr>target = ''10.0.0.1:9000'', conn = Some 1\<rparr>"
    by (simp add: users_manager_def)
  have n: "DAList.lookup (conns users_manager) ''billing'' = None"
    by (simp add: users_manager_def)
  show ?thesis
    using l n GetConn_result [of users_manager "''users''"]
      GetConn_result [of users_manager "''billing''"]
    by (simp add: ErrConnNotFound_def)
qed

section \<open>Draining the pool\<close>

lemma pool_ok_lookup:
  "pool_ok cm \<longleftrightarrow>
   (\<forall>service mc. DAList.lookup (conns cm) service = Some mc \<longrightarrow> conn mc \<noteq> None)"
  unfolding pool_ok_def list_all_iff lookup.rep_eq
  using impl_of_distinct [of "conns cm"]
  by (auto dest: map_of_SomeD)

lemma pool_ok_empty: "conns cm = DAList.empty \<Longrightarrow> pool_ok cm"
  by (simp add: pool_ok_def empty.rep_eq)

lemma closeEach_ok:
  "list_all (\<lambda>(name, mc). conn mc \<noteq> None) xs \<Longrightarrow>
   closeEach xs log = Inr (log + mset (List.map_filter (\<lambda>(name, mc). conn mc) xs))"
  by (induction xs arbitrary: log) (auto simp: Close_def split: option.splits)

lemma closeEach_panic:
  "\<not> list_all (\<lambda>(name, mc). conn mc \<noteq> None) xs \<Longrightarrow>
   closeEach xs log = Inl NilPointerDereference"
  by (induction xs arbitrary: log) (auto simp: Close_def split: option.splits)

lemma CloseAll_ok:
  "pool_ok cm \<Longrightarrow> CloseAll cm log = Inr (cm\<lparr>conns := DAList.empty\<rparr>, log + handles cm)"
  by (simp add: CloseAll_def pool_ok_def handles_def closeEach_ok)

lemma CloseAll_panic: "\<not> pool_ok cm \<Longrightarrow> CloseAll cm log = Inl NilPointerDereference"
  by (simp add: CloseAll_def pool_ok_def closeEach_panic)







section \<open>The pool never holds a nil connection\<close>

lemma pool_ok_replaceConn:
  "pool_ok cm \<Longrightarrow>
   \<exists>cm' log'. replaceConn service c tgt cm log = Inr (cm', log') \<and> pool_ok cm'"
  unfolding pool_ok_lookup
  by (cases "DAList.lookup (conns cm) service"; cases c)
     (fastforce simp: replaceConn_def Close_def lookup_update split: if_splits)+

lemma pool_ok_CloseAll:
  "pool_ok cm \<Longrightarrow> \<exists>cm' log'. CloseAll cm log = Inr (cm', log') \<and> pool_ok cm'"
  by (simp add: CloseAll_ok pool_ok_empty)

lemma pool_ok_apply_op:
  assumes "pool_ok cm"
  shows "\<exists>cm' log'. apply_op op cm log = Inr (cm', log') \<and> pool_ok cm'"
proof (cases op)
  case (Replace service c tgt)
  with pool_ok_replaceConn [OF assms, of service c tgt log] show ?thesis by simp
next
  case Drain
  with pool_ok_CloseAll [OF assms, of log] show ?thesis by simp
qed

lemma pool_ok_run_ops:
  "pool_ok cm \<Longrightarrow> \<exists>cm' log'. run_ops ops cm log = Inr (cm', log') \<and> pool_ok cm'"
proof (induction ops arbitrary: cm log)
  case Nil
  then show ?case by simp
next
  case (Cons op ops)
  from pool_ok_apply_op [OF Cons.prems, of op log]
  obtain cm1 log1 where step: "apply_op op cm log = Inr (cm1, log1)" and ok: "pool_ok cm1"
    by blast
  from Cons.IH [OF ok, of log1] step show ?case by simp
qed

lemma GetConn_not_nil: "pool_ok cm \<Longrightarrow> fst (GetConn service cm) \<noteq> Inr None"
  unfolding pool_ok_lookup by (auto simp: GetConn_def split: option.splits)

lemma replaceConn_installs:
  assumes "replaceConn service c tgt cm log = Inr (cm', log')"
    and "DAList.lookup (conns cm') name = Some mc"
    and "DAList.lookup (conns cm) name \<noteq> Some mc"
  shows "name = service \<and> c \<noteq> None \<and> mc = \<lparr>target = tgt, conn = c\<rparr>"
  using assms
  by (auto simp: replaceConn_def Close_def lookup_update
        split: option.splits sum.splits if_splits)

section \<open>Construction\<close>

lemma option_of_fails_iff:
  "(\<exists>err. option_of call cm = Inl err) \<longleftrightarrow> config_error call"
  by (cases call)
     (simp_all add: WithLogger_def WithRefreshInterval_def WithDialOptions_def
        split: option.splits)

lemma option_of_keeps:
  "option_of call cm = Inr cm' \<Longrightarrow>
   client cm' = client cm \<and> watchList cm' = watchList cm \<and> conns cm' = conns cm"
  by (cases call)
     (auto simp: WithLogger_def WithRefreshInterval_def WithDialOptions_def
        split: option.splits if_splits)

lemma applyOpts_fails_iff:
  "(\<exists>err. applyOpts (map option_of calls) cm = Inl err) \<longleftrightarrow> list_ex config_error calls"
proof (induction calls arbitrary: cm)
  case Nil
  show ?case by simp
next
  case (Cons call calls)
  show ?case
  proof (cases "option_of call cm")
    case (Inl err)
    then have "config_error call"
      using option_of_fails_iff [of call cm] by blast
    with Inl show ?thesis by simp
  next
    case (Inr cm')
    then have "\<not> config_error call"
      using option_of_fails_iff [of call cm] by auto
    with Inr Cons.IH [of cm'] show ?thesis by simp
  qed
qed

lemma applyOpts_keeps:
  "applyOpts (map option_of calls) cm = Inr cm' \<Longrightarrow>
   client cm' = client cm \<and> watchList cm' = watchList cm \<and> conns cm' = conns cm"
proof (induction calls arbitrary: cm)
  case Nil
  then show ?case by simp
next
  case (Cons call calls)
  from Cons.prems obtain cm1 where step: "option_of call cm = Inr cm1"
    and rest: "applyOpts (map option_of calls) cm1 = Inr cm'"
    by (auto split: sum.splits)
  from Cons.IH [OF rest] option_of_keeps [OF step] show ?case by simp
qed

lemma config_error_cases:
  "config_error c \<longleftrightarrow>
   c = CallWithLogger None \<or> (\<exists>d. d \<le>s 0 \<and> c = CallWithRefreshInterval d)"
  by (cases c) simp_all

lemma config_error_iff:
  "list_ex config_error calls \<longleftrightarrow>
   CallWithLogger None \<in> set calls \<or> (\<exists>d. d \<le>s 0 \<and> CallWithRefreshInterval d \<in> set calls)"
  unfolding list_ex_iff
proof
  assume "\<exists>c \<in> set calls. config_error c"
  then obtain c where c: "c \<in> set calls" and "config_error c" by blast
  then have "c = CallWithLogger None \<or> (\<exists>d. d \<le>s 0 \<and> c = CallWithRefreshInterval d)"
    by (simp only: config_error_cases)
  with c show "CallWithLogger None \<in> set calls
      \<or> (\<exists>d. d \<le>s 0 \<and> CallWithRefreshInterval d \<in> set calls)"
    by auto
next
  assume "CallWithLogger None \<in> set calls
      \<or> (\<exists>d. d \<le>s 0 \<and> CallWithRefreshInterval d \<in> set calls)"
  then show "\<exists>c \<in> set calls. config_error c"
  proof
    assume "CallWithLogger None \<in> set calls"
    then show ?thesis by (rule bexI [rotated]) simp
  next
    assume "\<exists>d. d \<le>s 0 \<and> CallWithRefreshInterval d \<in> set calls"
    then obtain d where "d \<le>s 0" "CallWithRefreshInterval d \<in> set calls" by blast
    then show ?thesis by (intro bexI [of _ "CallWithRefreshInterval d"]) simp_all
  qed
qed

lemma New_Inr:
  assumes "New cl services (map option_of calls) = Inr cm"
  shows "cl = Some (client cm) \<and> services \<noteq> [] \<and> watchList cm = services
    \<and> conns cm = DAList.empty \<and> \<not> list_ex config_error calls"
proof (cases cl)
  case None
  with assms show ?thesis by (simp add: New_def)
next
  case (Some c)
  define cm0 where "cm0 = \<lparr>client = c, watchList = services, conns = DAList.empty,
    logger = NopLogger, dialOpts = [InsecureTransportCredentials],
    refreshInterval = 30 * Second\<rparr>"
  from assms Some have ne: "services \<noteq> []"
    by (auto simp: New_def split: if_splits)
  with assms Some have run: "applyOpts (map option_of calls) cm0 = Inr cm"
    by (simp add: New_def cm0_def)
  have "\<not> list_ex config_error calls"
    using applyOpts_fails_iff [of calls cm0] run by simp
  moreover have "client cm = c" "watchList cm = services" "conns cm = DAList.empty"
    using applyOpts_keeps [OF run] by (simp_all add: cm0_def)
  ultimately show ?thesis using Some ne by simp
qed

lemma New_Inl:
  assumes "New cl services (map option_of calls) = Inl err"
  shows "cl = None \<or> services = [] \<or> list_ex config_error calls"
proof (cases cl)
  case None
  then show ?thesis by simp
next
  case (Some c)
  show ?thesis
  proof (cases "services = []")
    case True
    then show ?thesis by simp
  next
    case False
    with assms Some have "\<exists>cm0. applyOpts (map option_of calls) cm0 = Inl err"
      by (auto simp: New_def)
    then show ?thesis using applyOpts_fails_iff [of calls] by blast
  qed
qed

text \<open>
  C6. For options built with the package's constructors, \<open>New\<close> returns an error,
  and no manager, exactly when the client is nil, the service list is empty,
  some \<open>WithLogger\<close> was given a nil logger or some \<open>WithRefreshInterval\<close> a
  non-positive duration; in every other case it returns a manager, for the
  client and the services given, with an empty pool.
\<close>

theorem New_fails_exactly_on_config_errors:
  "case New cl services (map option_of calls) of
     Inl err \<Rightarrow>
       cl = None \<or> services = [] \<or> CallWithLogger None \<in> set calls
       \<or> (\<exists>d. d \<le>s 0 \<and> CallWithRefreshInterval d \<in> set calls)
   | Inr cm \<Rightarrow>
       cl = Some (client cm) \<and> services \<noteq> [] \<and> watchList cm = services
       \<and> conns cm = DAList.empty
       \<and> CallWithLogger None \<notin> set calls
       \<and> (\<forall>d. CallWithRefreshInterval d \<in> set calls \<longrightarrow> \<not> d \<le>s 0)"
proof (cases "New cl services (map option_of calls)")
  case (Inl err)
  from New_Inl [OF Inl] show ?thesis
    unfolding Inl config_error_iff by simp
next
  case (Inr cm)
  from New_Inr [OF Inr] show ?thesis
    unfolding Inr config_error_iff by auto
qed

theorem New_fails_exactly_on_config_errors_witness:
  "New (Some 1) [''users'', ''billing'']
      (map option_of [CallWithLogger (Some (ZapLogger 3)), CallWithRefreshInterval (5 * Second)])
     = Inr (users_manager\<lparr>conns := DAList.empty, logger := ZapLogger 3,
                           refreshInterval := 5 * Second\<rparr>)
   \<and> New (Some 1) [''users''] (map option_of [CallWithRefreshInterval 0])
       = Inl (ErrorsNew ''interval_must_be_positive'')
   \<and> New (Some 1) [''users''] (map option_of [CallWithLogger None])
       = Inl (ErrorsNew ''nil logger'')
   \<and> New (Some 1) [] (map option_of []) = Inl (ErrorsNew ''empty_service_list'')
   \<and> New None [''users''] (map option_of []) = Inl (ErrorsNew ''nil_consul_client'')"
proof -
  have ok: "New (Some 1) [''users'', ''billing'']
      (map option_of [CallWithLogger (Some (ZapLogger 3)), CallWithRefreshInterval (5 * Second)])
     = Inr (users_manager\<lparr>conns := DAList.empty, logger := ZapLogger 3,
                           refreshInterval := 5 * Second\<rparr>)"
    by (simp add: New_def WithLogger_def WithRefreshInterval_def users_manager_def
          Second_def word_sle_eq)
  have bad: "New (Some 1) [''users''] (map option_of [CallWithRefreshInterval 0])
       = Inl (ErrorsNew ''interval_must_be_positive'')"
    by (simp add: New_def WithRefreshInterval_def)
  have rest: "New (Some 1) [''users''] (map option_of [CallWithLogger None])
       = Inl (ErrorsNew ''nil logger'')"
    "New (Some 1) [] (map option_of []) = Inl (ErrorsNew ''empty_service_list'')"
    "New None [''users''] (map option_of []) = Inl (ErrorsNew ''nil_consul_client'')"
    by (simp_all add: New_def WithLogger_def)
  show ?thesis
    using ok bad rest
      New_fails_exactly_on_config_errors [of "Some 1" "[''users'', ''billing'']"
        "[CallWithLogger (Some (ZapLogger 3)), CallWithRefreshInterval (5 * Second)]"]
      New_fails_exactly_on_config_errors [of "Some 1" "[''users'']" "[CallWithRefreshInterval 0]"]
    by simp
qed

text \<open>
  C9. \<open>replaceConn\<close> installs an entry only for the service named, only when a
  connection is passed, and the entry holds that connection. The pool \<open>New\<close>
  creates is empty, and from it every sequence of \<open>replaceConn\<close> and \<open>CloseAll\<close>
  calls runs without a panic and ends in a pool whose entries all hold a
  connection, so that \<open>GetConn\<close> never returns a nil connection with a nil error.
\<close>

theorem pool_handles_never_nil:
  "(\<forall>c tgt cm log cm' log' name mc.
       replaceConn service c tgt cm log = Inr (cm', log')
       \<and> DAList.lookup (conns cm') name = Some mc
       \<and> DAList.lookup (conns cm) name \<noteq> Some mc
       \<longrightarrow> name = service \<and> c \<noteq> None \<and> conn mc = c)
   \<and> (New cl services (map option_of calls) = Inr cm0 \<longrightarrow>
        (\<exists>cm log. run_ops ops cm0 {#} = Inr (cm, log) \<and> pool_ok cm
           \<and> (\<forall>name. fst (GetConn name cm) \<noteq> Inr None)))"
proof (intro conjI allI impI)
  fix c tgt cm log cm' log' name mc
  assume a: "replaceConn service c tgt cm log = Inr (cm', log')
       \<and> DAList.lookup (conns cm') name = Some mc
       \<and> DAList.lookup (conns cm) name \<noteq> Some mc"
  from a replaceConn_installs [of service c tgt cm log cm' log' name mc]
  have "name = service \<and> c \<noteq> None \<and> mc = \<lparr>target = tgt, conn = c\<rparr>" by blast
  then show "name = service" "c \<noteq> None" "conn mc = c" by simp_all
next
  assume "New cl services (map option_of calls) = Inr cm0"
  then have "pool_ok cm0" using New_Inr pool_ok_empty by blast
  from pool_ok_run_ops [OF this, of ops "{#}"]
  show "\<exists>cm log. run_ops ops cm0 {#} = Inr (cm, log) \<and> pool_ok cm
           \<and> (\<forall>name. fst (GetConn name cm) \<noteq> Inr None)"
    using GetConn_not_nil by blast
qed

theorem pool_handles_never_nil_witness:
  "New (Some 1) [''users'', ''billing''] (map option_of [])
     = Inr (users_manager\<lparr>conns := DAList.empty\<rparr>)
   \<and> run_ops [Replace ''users'' (Some 1) ''10.0.0.1:9000'']
        (users_manager\<lparr>conns := DAList.empty\<rparr>) {#} = Inr (users_manager, {#})
   \<and> (\<exists>cm log. run_ops [Replace ''users'' (Some 1) ''10.0.0.1:9000'', Replace ''users'' None '''',
                          Replace ''billing'' (Some 2) ''10.0.0.7:9100'', Drain]
                  (users_manager\<lparr>conns := DAList.empty\<rparr>) {#} = Inr (cm, log)
          \<and> pool_ok cm \<and> fst (GetConn ''users'' cm) \<noteq> Inr None)"
proof -
  have n: "New (Some 1) [''users'', ''billing''] (map option_of [])
     = Inr (users_manager\<lparr>conns := DAList.empty\<rparr>)"
    by (simp add: New_def users_manager_def)
  have r: "run_ops [Replace ''users'' (Some 1) ''10.0.0.1:9000'']
        (users_manager\<lparr>conns := DAList.empty\<rparr>) {#} = Inr (users_manager, {#})"
    by (simp add: replaceConn_def users_manager_def)
  from pool_handles_never_nil [of "''users''" "Some 1" "[''users'', ''billing'']" "[]"
      "users_manager\<lparr>conns := DAList.empty\<rparr>"
      "[Replace ''users'' (Some 1) ''10.0.0.1:9000'', Replace ''users'' None '''',
        Replace ''billing'' (Some 2) ''10.0.0.7:9100'', Drain]"] n r
  show ?thesis by auto
qed

section \<open>Backoff\<close>

lemma sint_word_of_int_small:
  "- (2 ^ 63) \<le> x \<Longrightarrow> x < 2 ^ 63 \<Longrightarrow> sint (word_of_int x :: 64 word) = x"
  unfolding sint_sbintrunc' by (intro signed_take_bit_int_eq_self) simp_all

lemma half_positive:
  fixes base :: "64 word"
  assumes "2 \<le>s base"
  shows "\<not> (word_of_int (sint base sdiv 2) :: 64 word) \<le>s 0"
proof -
  have b: "2 \<le> sint base" using assms by (simp add: word_sle_eq)
  have ub: "sint base < 2 ^ 63" using sint_lt [of base] by simp
  have eq: "sint base sdiv 2 = sint base div 2"
    using b by (simp add: signed_divide_int_def sgn_if)
  have rng: "1 \<le> sint base div 2" "sint base div 2 < 2 ^ 63" using b ub by auto
  have s: "sint (word_of_int (sint base sdiv 2) :: 64 word) = sint base div 2"
    unfolding eq using rng by (intro sint_word_of_int_small) simp_all
  show ?thesis
    unfolding word_sle_eq s using rng by simp
qed

lemma backoff_returns:
  "2 \<le>s base \<Longrightarrow> backoff raw base = Inr (base + raw mod word_of_int (sint base sdiv 2))"
  by (simp add: backoff_def Int63n_def half_positive)

text \<open>
  Where the claim C7 holds: from two nanoseconds up to the largest base whose
  one and a half still fits an \<^verbatim>\<open>int64\<close>, the delay is the base plus a draw below
  half of it.
\<close>

lemma backoff_range:
  fixes base :: "64 word"
  assumes "2 \<le>s base" and "sint base + sint base div 2 \<le> 2 ^ 63"
  shows "\<exists>d. backoff raw base = Inr d \<and> sint base \<le> sint d \<and> 2 * sint d < 3 * sint base"
proof -
  define delta :: "64 word" where "delta = word_of_int (sint base sdiv 2)"
  define r where "r = raw mod delta"
  have b: "2 \<le> sint base" using assms(1) by (simp add: word_sle_eq)
  have eq: "sint base sdiv 2 = sint base div 2"
    using b by (simp add: signed_divide_int_def sgn_if)
  have ud: "uint delta = sint base div 2"
    unfolding delta_def eq uint_word_of_int using b sint_lt [of base]
    by (intro mod_pos_pos_trivial) simp_all
  have ur: "uint r = uint raw mod uint delta"
    unfolding r_def by (rule uint_mod_distrib)
  have r0: "0 \<le> uint r" by simp
  have r1: "uint r < sint base div 2"
    unfolding ur ud using b by (intro pos_mod_bound) simp
  have "base + r = word_of_int (sint base) + word_of_int (uint r)"
    by simp
  also have "\<dots> = word_of_int (sint base + uint r)"
    by (simp only: wi_hom_add)
  finally have "sint (base + r) = sint (word_of_int (sint base + uint r) :: 64 word)"
    by simp
  also have "\<dots> = sint base + uint r"
    using b r0 r1 assms(2) by (intro sint_word_of_int_small) linarith+
  finally have sd: "sint (base + r) = sint base + uint r" .
  have "backoff raw base = Inr (base + r)"
    unfolding r_def delta_def by (rule backoff_returns [OF assms(1)])
  moreover have "sint base \<le> sint (base + r)" using sd r0 by simp
  moreover have "2 * sint (base + r) < 3 * sint base" using sd r1 by linarith
  ultimately show ?thesis by blast
qed

text \<open>At the largest duration the sum wraps around to a negative delay.\<close>

lemma backoff_overflow:
  "backoff 1 (2 ^ 63 - 1) = Inr (2 ^ 63) \<and> sint (2 ^ 63 :: 64 word) = - (2 ^ 63)"
  by (simp add: backoff_def Int63n_def signed_divide_int_def word_sle_eq)

text \<open>
  C7. The claim fails on the code at a base of one nanosecond, a refresh
  interval \<open>WithRefreshInterval\<close> accepts: half of it is zero, and \<open>backoff\<close>
  hands zero to \<^verbatim>\<open>rand.Int63n\<close>, which panics, whatever the generator holds.
\<close>

theorem backoff_panics_at_one_nanosecond:
  "WithRefreshInterval 1 cm = Inr (cm\<lparr>refreshInterval := 1\<rparr>)
   \<and> backoff raw (refreshInterval (cm\<lparr>refreshInterval := 1\<rparr>))
       = Inl (InvalidArgument ''invalid argument to Int63n'')"
  by (simp add: WithRefreshInterval_def backoff_def Int63n_def signed_divide_int_def
        word_sle_eq)

section \<open>The change index in the discovery loop\<close>

lemma queries_append: "queries (xs @ ys) = queries xs @ queries ys"
  by (induction xs rule: queries.induct) simp_all

lemma submit_ok:
  "pool_ok (mgr st) \<Longrightarrow>
   \<exists>st'. submit service c tgt st = Inr st' \<and> waitIdx st' = waitIdx st
     \<and> trace st' = trace st \<and> pool_ok (mgr st')"
  using pool_ok_replaceConn [of "mgr st" service c tgt "closes st"]
  by (auto simp: submit_def)

lemma watchIteration_success:
  assumes "pool_ok (mgr st)"
    and "Health_Service env service
           \<lparr>WaitTime = refreshInterval (mgr st), WaitIndex = waitIdx st, AllowStale = False\<rparr>
         = Inr (entries, meta)"
  shows "\<exists>st'. watchIteration service env st = Inr st' \<and> waitIdx st' = LastIndex meta
    \<and> trace st' = trace st @ [Queried service
         \<lparr>WaitTime = refreshInterval (mgr st), WaitIndex = waitIdx st, AllowStale = False\<rparr>]
    \<and> pool_ok (mgr st')"
proof -
  define q where
    "q = \<lparr>WaitTime = refreshInterval (mgr st), WaitIndex = waitIdx st, AllowStale = False\<rparr>"
  define st2 where
    "st2 = st\<lparr>trace := trace st @ [Queried service q], waitIdx := LastIndex meta\<rparr>"
  have ok2: "pool_ok (mgr st2)" using assms(1) by (simp add: st2_def)
  have f2: "waitIdx st2 = LastIndex meta" "trace st2 = trace st @ [Queried service q]"
    by (simp_all add: st2_def)
  show ?thesis
  proof (cases "entries = []")
    case True
    then have "watchIteration service env st = submit service None '''' st2"
      using assms(2) by (simp add: watchIteration_def q_def st2_def)
    with submit_ok [OF ok2, of service None "''''"] f2 show ?thesis
      by (auto simp: q_def)
  next
    case False
    then have len: "\<not> int (length entries) \<le> 0" by simp
    define i where "i = int (rand_Int env) mod int (length entries)"
    define selected where "selected = entries ! nat i"
    define addr where
      "addr = (if Service_Address selected = '''' then Node_Address selected
               else Service_Address selected)"
    define tgt where "tgt = addrTemplate addr (Service_Port selected)"
    have it: "watchIteration service env st =
      (if LookupHost env addr \<noteq> None then Inr st2
       else case NewClient env tgt (dialOpts (mgr st2)) of
              Inl err \<Rightarrow> Inr st2
            | Inr c \<Rightarrow> submit service (Some c) tgt st2)"
      unfolding watchIteration_def Intn_def Let_def q_def st2_def i_def selected_def
        addr_def tgt_def
      using assms(2) False len by simp
    show ?thesis
    proof (cases "LookupHost env addr \<noteq> None")
      case True
      with it ok2 f2 show ?thesis by (simp add: q_def)
    next
      case lk: False
      show ?thesis
      proof (cases "NewClient env tgt (dialOpts (mgr st2))")
        case (Inl err)
        with it lk ok2 f2 show ?thesis by (simp add: q_def)
      next
        case (Inr c)
        with it lk have "watchIteration service env st = submit service (Some c) tgt st2"
          by simp
        with submit_ok [OF ok2, of service "Some c" tgt] f2 show ?thesis
          by (auto simp: q_def)
      qed
    qed
  qed
qed

lemma watchIteration_query_error:
  assumes "2 \<le>s refreshInterval (mgr st)"
    and "Health_Service env service
           \<lparr>WaitTime = refreshInterval (mgr st), WaitIndex = waitIdx st, AllowStale = False\<rparr>
         = Inl err"
  shows "watchIteration service env st =
     Inr (st\<lparr>trace := trace st @
            [Queried service
               \<lparr>WaitTime = refreshInterval (mgr st), WaitIndex = waitIdx st, AllowStale = False\<rparr>,
             Slept (refreshInterval (mgr st)
                    + rand_Int63 env mod word_of_int (sint (refreshInterval (mgr st)) sdiv 2))]\<rparr>)"
  using assms by (simp add: watchIteration_def backoff_returns)

text \<open>
  With a refresh interval of one nanosecond an iteration whose query fails ends
  in the panic of \<open>backoff\<close>.
\<close>

lemma watchIteration_query_error_panics:
  assumes "refreshInterval (mgr st) = 1"
    and "Health_Service env service
           \<lparr>WaitTime = 1, WaitIndex = waitIdx st, AllowStale = False\<rparr> = Inl err"
  shows "watchIteration service env st = Inl (InvalidArgument ''invalid argument to Int63n'')"
  using assms
  by (simp add: watchIteration_def backoff_def Int63n_def signed_divide_int_def word_sle_eq)

lemma watchLoop_query_errors:
  assumes "2 \<le>s refreshInterval (mgr st)"
    and "\<forall>env \<in> set envs. \<not> ctx_done env \<and>
           (\<exists>err. Health_Service env service
              \<lparr>WaitTime = refreshInterval (mgr st), WaitIndex = waitIdx st, AllowStale = False\<rparr>
            = Inl err)"
  shows "\<exists>st'. watchLoop service envs st = Inr st' \<and> waitIdx st' = waitIdx st
    \<and> mgr st' = mgr st \<and> closes st' = closes st
    \<and> map WaitIndex (queries (trace st'))
        = map WaitIndex (queries (trace st)) @ replicate (length envs) (waitIdx st)"
  using assms
proof (induction envs arbitrary: st)
  case Nil
  then show ?case by simp
next
  case (Cons env envs)
  let ?q = "\<lparr>WaitTime = refreshInterval (mgr st), WaitIndex = waitIdx st, AllowStale = False\<rparr>"
  from Cons.prems(2) obtain err where nd: "\<not> ctx_done env"
    and err: "Health_Service env service ?q = Inl err"
    by auto
  define st1 where "st1 = st\<lparr>trace := trace st @
            [Queried service ?q,
             Slept (refreshInterval (mgr st)
                    + rand_Int63 env mod word_of_int (sint (refreshInterval (mgr st)) sdiv 2))]\<rparr>"
  have step: "watchIteration service env st = Inr st1"
    unfolding st1_def by (rule watchIteration_query_error [OF Cons.prems(1) err])
  have same: "waitIdx st1 = waitIdx st" "mgr st1 = mgr st" "closes st1 = closes st"
    by (simp_all add: st1_def)
  have tr: "map WaitIndex (queries (trace st1)) = map WaitIndex (queries (trace st)) @ [waitIdx st]"
    by (simp add: st1_def queries_append)
  have "\<exists>st'. watchLoop service envs st1 = Inr st' \<and> waitIdx st' = waitIdx st1
    \<and> mgr st' = mgr st1 \<and> closes st' = closes st1
    \<and> map WaitIndex (queries (trace st'))
        = map WaitIndex (queries (trace st1)) @ replicate (length envs) (waitIdx st1)"
    using Cons.prems by (intro Cons.IH) (simp_all add: same)
  then show ?case
    using nd step by (auto simp: same tr replicate_app_Cons_same)
qed

text \<open>
  How the loop treats the change index when \<open>backoff\<close> returns, that is with a
  refresh interval of two nanoseconds or more: while the directory
  query fails, iteration after iteration, the loop keeps running, the change
  index stays what it was before the first failure, and every one of the
  queries carries that index (neither the manager nor any connection is
  touched). And on a pool that satisfies its invariant, an iteration whose query
  succeeds sends the current index and ends with the index the directory
  returned, which is the index the next iteration sends.
\<close>

lemma change_index_from_two_nanoseconds:
  "(2 \<le>s refreshInterval (mgr st)
     \<and> (\<forall>env \<in> set envs. \<not> ctx_done env \<and>
           (\<exists>err. Health_Service env service
              \<lparr>WaitTime = refreshInterval (mgr st), WaitIndex = waitIdx st, AllowStale = False\<rparr>
            = Inl err))
     \<longrightarrow> (\<exists>st'. watchLoop service envs st = Inr st' \<and> waitIdx st' = waitIdx st
            \<and> mgr st' = mgr st \<and> closes st' = closes st
            \<and> map WaitIndex (queries (trace st'))
                = map WaitIndex (queries (trace st)) @ replicate (length envs) (waitIdx st)))
   \<and> (pool_ok (mgr st)
     \<and> Health_Service env1 service
          \<lparr>WaitTime = refreshInterval (mgr st), WaitIndex = waitIdx st, AllowStale = False\<rparr>
        = Inr (entries, meta)
     \<longrightarrow> (\<exists>st'. watchIteration service env1 st = Inr st' \<and> waitIdx st' = LastIndex meta
            \<and> trace st' = trace st @ [Queried service
                 \<lparr>WaitTime = refreshInterval (mgr st), WaitIndex = waitIdx st,
                    AllowStale = False\<rparr>]))"
proof (intro conjI impI)
  assume "2 \<le>s refreshInterval (mgr st)
     \<and> (\<forall>env \<in> set envs. \<not> ctx_done env \<and>
           (\<exists>err. Health_Service env service
              \<lparr>WaitTime = refreshInterval (mgr st), WaitIndex = waitIdx st, AllowStale = False\<rparr>
            = Inl err))"
  then show "\<exists>st'. watchLoop service envs st = Inr st' \<and> waitIdx st' = waitIdx st
            \<and> mgr st' = mgr st \<and> closes st' = closes st
            \<and> map WaitIndex (queries (trace st'))
                = map WaitIndex (queries (trace st)) @ replicate (length envs) (waitIdx st)"
    using watchLoop_query_errors [of st envs service] by blast
next
  assume "pool_ok (mgr st)
     \<and> Health_Service env1 service
          \<lparr>WaitTime = refreshInterval (mgr st), WaitIndex = waitIdx st, AllowStale = False\<rparr>
        = Inr (entries, meta)"
  then show "\<exists>st'. watchIteration service env1 st = Inr st' \<and> waitIdx st' = LastIndex meta
            \<and> trace st' = trace st @ [Queried service
                 \<lparr>WaitTime = refreshInterval (mgr st), WaitIndex = waitIdx st,
                    AllowStale = False\<rparr>]"
    using watchIteration_success [of st env1 service entries meta] by blast
qed

lemma change_index_from_two_nanoseconds_example:
  "2 \<le>s refreshInterval (mgr users_loop)
   \<and> \<not> ctx_done refusing_env
   \<and> Health_Service refusing_env ''users''
        \<lparr>WaitTime = refreshInterval (mgr users_loop), WaitIndex = waitIdx users_loop,
           AllowStale = False\<rparr>
      = Inl (ErrorsNew ''connection refused'')
   \<and> (\<exists>st'. watchLoop ''users'' [refusing_env, refusing_env, refusing_env] users_loop = Inr st'
          \<and> waitIdx st' = 5
          \<and> map WaitIndex (queries (trace st')) = [5, 5, 5])
   \<and> pool_ok (mgr users_loop)
   \<and> Health_Service answering_env ''users''
        \<lparr>WaitTime = refreshInterval (mgr users_loop), WaitIndex = waitIdx users_loop,
           AllowStale = False\<rparr>
      = Inr ([\<lparr>Node_Address = ''10.0.0.2'', Service_Address = '''', Service_Port = 9000\<rparr>],
             \<lparr>LastIndex = 42\<rparr>)
   \<and> (\<exists>st'. watchIteration ''users'' answering_env users_loop = Inr st' \<and> waitIdx st' = 42)"
proof -
  have h1: "2 \<le>s refreshInterval (mgr users_loop)"
    by (simp add: users_loop_def users_manager_def Second_def word_sle_eq)
  have h2: "\<forall>env \<in> set [refusing_env, refusing_env, refusing_env]. \<not> ctx_done env \<and>
         (\<exists>err. Health_Service env ''users''
            \<lparr>WaitTime = refreshInterval (mgr users_loop), WaitIndex = waitIdx users_loop,
               AllowStale = False\<rparr>
          = Inl err)"
    by (simp add: refusing_env_def)
  have r1: "\<not> ctx_done refusing_env"
    by (simp add: refusing_env_def)
  have r2: "Health_Service refusing_env ''users''
        \<lparr>WaitTime = refreshInterval (mgr users_loop), WaitIndex = waitIdx users_loop,
           AllowStale = False\<rparr>
      = Inl (ErrorsNew ''connection refused'')"
    by (simp add: refusing_env_def)
  have h3: "pool_ok (mgr users_loop)"
    by (simp add: users_loop_def pool_ok_def users_manager_def update.rep_eq empty.rep_eq)
  have h4: "Health_Service answering_env ''users''
        \<lparr>WaitTime = refreshInterval (mgr users_loop), WaitIndex = waitIdx users_loop,
           AllowStale = False\<rparr>
      = Inr ([\<lparr>Node_Address = ''10.0.0.2'', Service_Address = '''', Service_Port = 9000\<rparr>],
             \<lparr>LastIndex = 42\<rparr>)"
    by (simp add: answering_env_def)
  have i: "waitIdx users_loop = 5" "trace users_loop = []"
    by (simp_all add: users_loop_def)
  have "\<exists>st'. watchLoop ''users'' [refusing_env, refusing_env, refusing_env] users_loop = Inr st'
      \<and> waitIdx st' = waitIdx users_loop
      \<and> mgr st' = mgr users_loop \<and> closes st' = closes users_loop
      \<and> map WaitIndex (queries (trace st'))
          = map WaitIndex (queries (trace users_loop))
            @ replicate (length [refusing_env, refusing_env, refusing_env]) (waitIdx users_loop)"
    by (rule change_index_from_two_nanoseconds [THEN conjunct1, THEN mp, OF conjI [OF h1 h2]])
  then obtain st' where
    "watchLoop ''users'' [refusing_env, refusing_env, refusing_env] users_loop = Inr st'"
    "waitIdx st' = waitIdx users_loop"
    "map WaitIndex (queries (trace st'))
          = map WaitIndex (queries (trace users_loop))
            @ replicate (length [refusing_env, refusing_env, refusing_env]) (waitIdx users_loop)"
    by blast
  then have "watchLoop ''users'' [refusing_env, refusing_env, refusing_env] users_loop = Inr st'
      \<and> waitIdx st' = 5 \<and> map WaitIndex (queries (trace st')) = [5, 5, 5]"
    by (simp add: i numeral_3_eq_3 del: watchLoop.simps)
  then have a: "\<exists>st'. watchLoop ''users'' [refusing_env, refusing_env, refusing_env] users_loop = Inr st'
          \<and> waitIdx st' = 5
          \<and> map WaitIndex (queries (trace st')) = [5, 5, 5]"
    by (rule exI)
  have "\<exists>st'. watchIteration ''users'' answering_env users_loop = Inr st'
      \<and> waitIdx st' = LastIndex \<lparr>LastIndex = 42\<rparr>
      \<and> trace st' = trace users_loop @ [Queried ''users''
           \<lparr>WaitTime = refreshInterval (mgr users_loop), WaitIndex = waitIdx users_loop,
              AllowStale = False\<rparr>]"
    by (rule change_index_from_two_nanoseconds [THEN conjunct2, THEN mp, OF conjI [OF h3 h4]])
  then have b: "\<exists>st'. watchIteration ''users'' answering_env users_loop = Inr st'
      \<and> waitIdx st' = 42"
    by auto
  show ?thesis
    by (intro conjI) (rule h1 r1 r2 h3 h4 a b)+
qed

text \<open>
  C8. The claim fails on the code at a refresh interval of one nanosecond, which
  \<open>New\<close> accepts from \<open>WithRefreshInterval\<close>: the first failed query sends the
  loop into \<open>backoff\<close>, which panics in \<^verbatim>\<open>rand.Int63n\<close>, so the loop ends there
  and no retry reuses the index, whatever the directory would answer next.
\<close>

theorem watchService_failed_query_panics_at_one_nanosecond:
  "New (Some 1) [''users'', ''billing''] [WithRefreshInterval 1]
     = Inr (users_manager\<lparr>conns := DAList.empty, refreshInterval := 1\<rparr>)
   \<and> watchService ''users'' [refusing_env, answering_env]
        (users_manager\<lparr>conns := DAList.empty, refreshInterval := 1\<rparr>) {#}
       = Inl (InvalidArgument ''invalid argument to Int63n'')"
  by (simp add: New_def WithRefreshInterval_def users_manager_def watchService_def
        watchIteration_def refusing_env_def backoff_def Int63n_def signed_divide_int_def
        word_sle_eq)

end
